theory Spec2Isabelle
  imports Complex_Main "HOL-Library.AList" "HOL-Library.Char_ord" "HOL-Library.List_Lexorder"
begin

section \<open>Values, errors and the random source\<close>

text \<open>
  The program is \<^verbatim>\<open>ModelScriptsForCLI/simulation_approach.py\<close>. Its numbers are Python
  and numpy floats; here they are exact reals, so rounding, infinities and NaN are not part
  of the model (a division by zero is \<open>0\<close> in HOL where pandas gives \<open>inf\<close> or \<open>NaN\<close>;
  no theorem below rests on the value of such a division). Python integers are \<open>int\<close>.
  The module-level globals \<^verbatim>\<open>data\<close>, \<^verbatim>\<open>team_performance\<close> and \<^verbatim>\<open>team_stats_dict\<close> are
  parameters of the functions that read them.
\<close>

type_synonym team = string

datatype py_error = KeyError string | ValueError | IndexError | ZeroDivisionError

text \<open>
  One entry of \<^verbatim>\<open>team_stats_dict\<close>: line 43 builds every inner dictionary with exactly
  these three keys, so reading one of them cannot raise.
\<close>

record team_stats =
  Attack_Strength :: real
  Defense_Strength :: real
  Win_Rate :: real

type_synonym stats_dict = "team \<rightharpoonup> team_stats"

text \<open>The result strings \<^verbatim>\<open>"H"\<close>, \<^verbatim>\<open>"D"\<close> and \<^verbatim>\<open>"A"\<close>.\<close>

datatype outcome = H | D | A

text \<open>
  The random source is a stream \<open>u\<close> of uniform samples of \<open>[0, 1)\<close> and the number \<open>k\<close>
  of samples already taken; a function that draws returns the new count.

  \<^verbatim>\<open>np.random.choice(a, p=p)\<close> checks the probabilities, forms the normalised running
  sums of \<open>p\<close> and returns the element of \<open>a\<close> at the position where one uniform sample
  falls (\<^verbatim>\<open>cdf.searchsorted(sample, side='right')\<close>: the number of entries of the sorted
  \<open>cdf\<close> that are at most the sample). numpy accepts a sum of \<open>p\<close> within a small
  tolerance of 1; over the reals the test is exact.
\<close>

definition uniform_samples :: "(nat \<Rightarrow> real) \<Rightarrow> bool" where
  "uniform_samples u = (\<forall>n. 0 \<le> u n \<and> u n < 1)"

fun cumsum_from :: "real \<Rightarrow> real list \<Rightarrow> real list" where
  "cumsum_from acc [] = []"
| "cumsum_from acc (x # xs) = (acc + x) # cumsum_from (acc + x) xs"

definition cumsum :: "real list \<Rightarrow> real list" where
  "cumsum p = cumsum_from 0 p"

definition searchsorted_right :: "real list \<Rightarrow> real \<Rightarrow> nat" where
  "searchsorted_right cdf v = length (filter (\<lambda>c. c \<le> v) cdf)"

definition np_random_choice :: "'a list \<Rightarrow> real list \<Rightarrow> real \<Rightarrow> py_error + 'a" where
  "np_random_choice a p sample =
     (if length p \<noteq> length a then Inl ValueError
      else if list_ex (\<lambda>x. x < 0) p then Inl ValueError
      else if sum_list p \<noteq> 1 then Inl ValueError
      else (let cdf = cumsum p;
                idx = searchsorted_right (map (\<lambda>c. c / last cdf) cdf) sample
            in if idx < length a then Inr (a ! idx) else Inl IndexError))"

section \<open>Recency weights (line 21)\<close>

text \<open>
  \<^verbatim>\<open>lambda x: 1 if x < 2015 else (1 + (x - 2015) / 5)\<close> on the integer season year;
  \<^verbatim>\<open>/\<close> is true division.
\<close>

definition SeasonWeight :: "int \<Rightarrow> real" where
  "SeasonWeight x = (if x < 2015 then 1 else 1 + real_of_int (x - 2015) / 5)"

section \<open>Single match (lines 46-62)\<close>

definition home_advantage :: "team_stats \<Rightarrow> team_stats \<Rightarrow> real" where
  "home_advantage home away =
     (let home_attack = Attack_Strength home;
          away_attack = Attack_Strength away;
          home_defense = Defense_Strength home;
          away_defense = Defense_Strength away
      in (home_attack + away_defense) - (away_attack + home_defense))"

definition simulate_match ::
  "stats_dict \<Rightarrow> (nat \<Rightarrow> real) \<Rightarrow> nat \<Rightarrow> team \<Rightarrow> team \<Rightarrow> py_error + (outcome \<times> nat)" where
  "simulate_match team_stats_dict u k home_team away_team =
     (case team_stats_dict home_team of
        None \<Rightarrow>
          (case np_random_choice [H, D, A] [1/3, 1/3, 1/3] (u k) of
             Inl e \<Rightarrow> Inl e
           | Inr r \<Rightarrow> Inr (r, Suc k))
      | Some home \<Rightarrow>
          (case team_stats_dict away_team of
             None \<Rightarrow>
               (case np_random_choice [H, D, A] [1/3, 1/3, 1/3] (u k) of
                  Inl e \<Rightarrow> Inl e
                | Inr r \<Rightarrow> Inr (r, Suc k))
           | Some away \<Rightarrow>
               (if home_advantage home away > 0.2 then Inr (H, k)
                else if home_advantage home away < - 0.2 then Inr (A, k)
                else Inr (D, k))))"

section \<open>Head to head (lines 161-199)\<close>

text \<open>
  The function prints and returns nothing. Its result here is what it reports: either the
  message that a team is not in the dataset, after which it returns at once (line 165),
  or the two strengths, the three probabilities handed to \<^verbatim>\<open>np.random.choice\<close> and the
  sampled result.
\<close>

record h2h_prediction =
  team1_strength :: real
  team2_strength :: real
  team1_prob :: real
  draw_prob :: real
  team2_prob :: real
  result :: outcome

datatype h2h_report = TeamsNotInDataset | Predicted h2h_prediction

text \<open>Lines 176-178: the denominator, \<open>0.01\<close> when both strengths are zero.\<close>

definition total_strength :: "real \<Rightarrow> real \<Rightarrow> real" where
  "total_strength s1 s2 = (let t = \<bar>s1\<bar> + \<bar>s2\<bar> in if t = 0 then 0.01 else t)"

text \<open>Lines 180-182: \<open>(team1_prob, draw_prob, team2_prob)\<close> before they are normalised.\<close>

definition raw_probs :: "real \<Rightarrow> real \<Rightarrow> real \<times> real \<times> real" where
  "raw_probs s1 s2 =
     (let p1 = \<bar>s1\<bar> / total_strength s1 s2;
          p2 = \<bar>s2\<bar> / total_strength s1 s2;
          d = max (1 - (p1 + p2)) 0.2
      in (p1, d, p2))"

text \<open>Lines 185-188: the same three, each divided by their sum.\<close>

definition normalized_probs :: "real \<Rightarrow> real \<Rightarrow> real \<times> real \<times> real" where
  "normalized_probs s1 s2 =
     (case raw_probs s1 s2 of (p1, d, p2) \<Rightarrow>
        (let total_prob = p1 + p2 + d
         in (p1 / total_prob, d / total_prob, p2 / total_prob)))"

definition simulate_head_to_head ::
  "stats_dict \<Rightarrow> (nat \<Rightarrow> real) \<Rightarrow> nat \<Rightarrow> team \<Rightarrow> team \<Rightarrow> py_error + (h2h_report \<times> nat)" where
  "simulate_head_to_head team_stats_dict u k team1 team2 =
     (case team_stats_dict team1 of
        None \<Rightarrow> Inr (TeamsNotInDataset, k)
      | Some t1 \<Rightarrow>
          (case team_stats_dict team2 of
             None \<Rightarrow> Inr (TeamsNotInDataset, k)
           | Some t2 \<Rightarrow>
               (let s1 = Attack_Strength t1 - Defense_Strength t2;
                    s2 = Attack_Strength t2 - Defense_Strength t1
                in case normalized_probs s1 s2 of (p1, d, p2) \<Rightarrow>
                     (case np_random_choice [H, D, A] [p1, d, p2] (u k) of
                        Inl e \<Rightarrow> Inl e
                      | Inr r \<Rightarrow>
                          Inr (Predicted \<lparr>team1_strength = s1, team2_strength = s2,
                                 team1_prob = p1, draw_prob = d, team2_prob = p2,
                                 result = r\<rparr>, Suc k)))))"

section \<open>One simulated season (lines 127-140)\<close>

text \<open>
  A Python dictionary is an association list in insertion order: \<open>map_of\<close> reads a key and
  \<open>AList.update\<close> writes one, in place when the key is there and at the end when it is new.
  Reading a key that is absent raises \<^verbatim>\<open>KeyError\<close>.
\<close>

type_synonym tally = "(team \<times> int) list"

text \<open>\<^verbatim>\<open>{team: 0 for team in historical_teams}\<close>\<close>

definition zero_tally :: "team list \<Rightarrow> tally" where
  "zero_tally teams = foldl (\<lambda>d team. AList.update team 0 d) [] teams"

text \<open>\<^verbatim>\<open>standings[team] += n\<close>\<close>

definition add_points :: "team \<Rightarrow> int \<Rightarrow> tally \<Rightarrow> py_error + tally" where
  "add_points team n standings =
     (case map_of standings team of
        None \<Rightarrow> Inl (KeyError team)
      | Some points \<Rightarrow> Inr (AList.update team (points + n) standings))"

text \<open>
  The state of one season: the standings, the number of random samples taken, and a
  history of the matches played so far with their results. The source keeps no such
  history; it is recorded here so that theorems can speak about the matches of a season.
\<close>

record trial_state =
  standings :: tally
  rng_pos :: nat
  played :: "(team \<times> team \<times> outcome) list"

text \<open>Lines 134-140: the points of one result.\<close>

definition award :: "team \<Rightarrow> team \<Rightarrow> outcome \<Rightarrow> tally \<Rightarrow> py_error + tally" where
  "award home_team away_team r st =
     (case r of
        H \<Rightarrow> add_points home_team 3 st
      | D \<Rightarrow>
          (case add_points home_team 1 st of
             Inl e \<Rightarrow> Inl e
           | Inr st' \<Rightarrow> add_points away_team 1 st')
      | A \<Rightarrow> add_points away_team 3 st)"

text \<open>Lines 132-140: the body of the inner loop.\<close>

definition play_fixture ::
  "stats_dict \<Rightarrow> (nat \<Rightarrow> real) \<Rightarrow> team \<Rightarrow> team \<Rightarrow> trial_state \<Rightarrow> py_error + trial_state" where
  "play_fixture team_stats_dict u home_team away_team s =
     (if home_team \<noteq> away_team then
        (case simulate_match team_stats_dict u (rng_pos s) home_team away_team of
           Inl e \<Rightarrow> Inl e
         | Inr (r, k') \<Rightarrow>
             (case award home_team away_team r (standings s) of
                Inl e \<Rightarrow> Inl e
              | Inr st \<Rightarrow>
                  Inr \<lparr>standings = st, rng_pos = k',
                       played = played s @ [(home_team, away_team, r)]\<rparr>))
      else Inr s)"

fun away_loop ::
  "stats_dict \<Rightarrow> (nat \<Rightarrow> real) \<Rightarrow> team \<Rightarrow> team list \<Rightarrow> trial_state \<Rightarrow> py_error + trial_state" where
  "away_loop team_stats_dict u home_team [] s = Inr s"
| "away_loop team_stats_dict u home_team (away_team # rest) s =
     (case play_fixture team_stats_dict u home_team away_team s of
        Inl e \<Rightarrow> Inl e
      | Inr s' \<Rightarrow> away_loop team_stats_dict u home_team rest s')"

fun home_loop ::
  "stats_dict \<Rightarrow> (nat \<Rightarrow> real) \<Rightarrow> team list \<Rightarrow> team list \<Rightarrow> trial_state \<Rightarrow> py_error + trial_state" where
  "home_loop team_stats_dict u historical_teams [] s = Inr s"
| "home_loop team_stats_dict u historical_teams (home_team # rest) s =
     (case away_loop team_stats_dict u home_team historical_teams s of
        Inl e \<Rightarrow> Inl e
      | Inr s' \<Rightarrow> home_loop team_stats_dict u historical_teams rest s')"

text \<open>One pass of the loop of line 126, up to line 140: a fresh tally, then every match.\<close>

definition play_season ::
  "stats_dict \<Rightarrow> (nat \<Rightarrow> real) \<Rightarrow> nat \<Rightarrow> team list \<Rightarrow> py_error + trial_state" where
  "play_season team_stats_dict u k historical_teams =
     home_loop team_stats_dict u historical_teams historical_teams
       \<lparr>standings = zero_tally historical_teams, rng_pos = k, played = []\<rparr>"

text \<open>
  The 3/1/0 rule in the words of the specification: what one played match is worth to a
  team. The theorems compare the standings the loops compute with it.
\<close>

definition points_for :: "team \<Rightarrow> team \<times> team \<times> outcome \<Rightarrow> int" where
  "points_for team m =
     (case m of (home_team, away_team, r) \<Rightarrow>
        (case r of
           H \<Rightarrow> (if team = home_team then 3 else 0)
         | D \<Rightarrow> (if team = home_team \<or> team = away_team then 1 else 0)
         | A \<Rightarrow> (if team = away_team then 3 else 0)))"

definition decisive :: "team \<times> team \<times> outcome \<Rightarrow> bool" where
  "decisive m = (snd (snd m) \<noteq> D)"

definition drawn :: "team \<times> team \<times> outcome \<Rightarrow> bool" where
  "drawn m = (snd (snd m) = D)"

text \<open>
  What the loops keep true of a season's state: one tally entry per team, in the order of
  the teams; every team's points are those the rule gives it for the matches played; and
  the total is three points per decided match and two per drawn one.
\<close>

definition season_inv :: "team list \<Rightarrow> trial_state \<Rightarrow> bool" where
  "season_inv teams s \<longleftrightarrow>
     map fst (standings s) = teams \<and>
     (\<forall>team \<in> set teams.
        map_of (standings s) team = Some (sum_list (map (points_for team) (played s)))) \<and>
     sum_list (map snd (standings s)) =
       3 * int (length (filter decisive (played s))) + 2 * int (length (filter drawn (played s)))"

definition fixture_of :: "team \<times> team \<times> outcome \<Rightarrow> team \<times> team" where
  "fixture_of m = (fst m, fst (snd m))"

text \<open>The matches the two loops visit, in their order: for every home team, every other team.\<close>

definition fixtures :: "'a list \<Rightarrow> 'a list \<Rightarrow> ('a \<times> 'a) list" where
  "fixtures homes teams =
     concat (map (\<lambda>h. map (Pair h) (filter (\<lambda>a. h \<noteq> a) teams)) homes)"

section \<open>Rankings over all seasons (lines 123-158)\<close>

type_synonym rankings = "(team \<times> nat list) list"

text \<open>\<^verbatim>\<open>{team: [] for team in historical_teams}\<close>\<close>

definition empty_rankings :: "team list \<Rightarrow> rankings" where
  "empty_rankings teams = foldl (\<lambda>d team. AList.update team [] d) [] teams"

text \<open>
  \<^verbatim>\<open>sorted(standings.items(), key=lambda x: x[1], reverse=True)\<close>: Python's sort is
  stable, also with \<^verbatim>\<open>reverse=True\<close>, and so is \<open>sort_key\<close> on the negated points.
\<close>

definition sorted_teams :: "tally \<Rightarrow> tally" where
  "sorted_teams st = sort_key (\<lambda>x. - snd x) st"

text \<open>\<^verbatim>\<open>final_rankings[team].append(rank + 1)\<close>\<close>

definition append_rank :: "team \<Rightarrow> nat \<Rightarrow> rankings \<Rightarrow> py_error + rankings" where
  "append_rank team position final_rankings =
     (case map_of final_rankings team of
        None \<Rightarrow> Inl (KeyError team)
      | Some ranks \<Rightarrow> Inr (AList.update team (ranks @ [position]) final_rankings))"

text \<open>Lines 144-145, over \<^verbatim>\<open>enumerate(sorted_teams)\<close>.\<close>

fun record_positions :: "(nat \<times> team \<times> int) list \<Rightarrow> rankings \<Rightarrow> py_error + rankings" where
  "record_positions [] final_rankings = Inr final_rankings"
| "record_positions ((rank, (team, points)) # rest) final_rankings =
     (case append_rank team (rank + 1) final_rankings of
        Inl e \<Rightarrow> Inl e
      | Inr fr \<Rightarrow> record_positions rest fr)"

text \<open>The loop of line 126, \<open>n\<close> passes of it.\<close>

fun season_loop ::
  "nat \<Rightarrow> stats_dict \<Rightarrow> (nat \<Rightarrow> real) \<Rightarrow> team list \<Rightarrow> rankings \<times> nat \<Rightarrow> py_error + rankings \<times> nat" where
  "season_loop 0 team_stats_dict u historical_teams (final_rankings, k) = Inr (final_rankings, k)"
| "season_loop (Suc n) team_stats_dict u historical_teams (final_rankings, k) =
     (case play_season team_stats_dict u k historical_teams of
        Inl e \<Rightarrow> Inl e
      | Inr s \<Rightarrow>
          (case record_positions (enumerate 0 (sorted_teams (standings s))) final_rankings of
             Inl e \<Rightarrow> Inl e
           | Inr fr \<Rightarrow> season_loop n team_stats_dict u historical_teams (fr, rng_pos s)))"

text \<open>
  What the loop of line 126 keeps true of \<^verbatim>\<open>final_rankings\<close> after \<open>j\<close> seasons: one entry
  per team, holding \<open>j\<close> positions between \<open>1\<close> and the number of teams.
\<close>

definition rank_inv :: "team list \<Rightarrow> nat \<Rightarrow> rankings \<Rightarrow> bool" where
  "rank_inv teams j final_rankings \<longleftrightarrow>
     map fst final_rankings = teams \<and>
     (\<forall>team \<in> set teams. \<exists>ranks. map_of final_rankings team = Some ranks \<and>
        length ranks = j \<and> (\<forall>r \<in> set ranks. 1 \<le> r \<and> r \<le> length teams))"

definition num_simulations :: nat where
  "num_simulations = 1000"

text \<open>\<^verbatim>\<open>np.mean(ranks)\<close>\<close>

definition np_mean :: "nat list \<Rightarrow> real" where
  "np_mean ranks = real (sum_list ranks) / real (length ranks)"

text \<open>Line 148: one row per key of \<^verbatim>\<open>final_rankings\<close>, in the dictionary's order.\<close>

definition avg_positions :: "rankings \<Rightarrow> (team \<times> real) list" where
  "avg_positions final_rankings = map (\<lambda>(team, ranks). (team, np_mean ranks)) final_rankings"

text \<open>
  Line 150: \<^verbatim>\<open>sort_values(by="Avg Position").head(10)\<close>. pandas does not promise an order
  among rows with equal averages; \<open>sort_key\<close> keeps them in their earlier order.
\<close>

definition top_10 :: "(team \<times> real) list \<Rightarrow> (team \<times> real) list" where
  "top_10 df = take 10 (sort_key snd df)"

text \<open>
  Lines 123-158 for a given list \<^verbatim>\<open>historical_teams\<close>. What the function prints is its
  result here: the table of line 150 and whether the warning of line 158 is printed.
\<close>

record season_report =
  final_rankings_df :: "(team \<times> real) list"
  not_in_top_10 :: bool

definition simulate_season_teams ::
  "stats_dict \<Rightarrow> (nat \<Rightarrow> real) \<Rightarrow> nat \<Rightarrow> team list \<Rightarrow> team \<Rightarrow> py_error + season_report \<times> nat" where
  "simulate_season_teams team_stats_dict u k historical_teams team_name =
     (case season_loop num_simulations team_stats_dict u historical_teams
             (empty_rankings historical_teams, k) of
        Inl e \<Rightarrow> Inl e
      | Inr (final_rankings, k') \<Rightarrow>
          (let df = top_10 (avg_positions final_rankings)
           in Inr (\<lparr>final_rankings_df = df,
                     not_in_top_10 = (team_name \<notin> set (map fst df))\<rparr>, k')))"

section \<open>The historical table and the profiles (lines 18-43)\<close>

text \<open>
  A pandas table is its list of column names and its rows. A row carries the team name,
  the season year and the numeric cells by column name; \<open>Team\<close> and \<open>Season\<close> count as
  columns only when \<open>columns\<close> lists them, and a cell is read only after its column has
  been found in \<open>columns\<close>. \<^verbatim>\<open>team_performance\<close> is such a table too (its \<open>Season\<close> is not
  a column and is never read).
\<close>

record season_record =
  Team :: team
  Season :: int
  cells :: "string \<Rightarrow> real"

record dataframe =
  columns :: "string list"
  rows :: "season_record list"

text \<open>\<^verbatim>\<open>x[c]\<close> for a numeric column.\<close>

definition column :: "dataframe \<Rightarrow> string \<Rightarrow> py_error + real list" where
  "column x c =
     (if c \<in> set (columns x) then Inr (map (\<lambda>r. cells r c) (rows x)) else Inl (KeyError c))"

text \<open>Line 21: \<^verbatim>\<open>data["SeasonWeight"] = data["Season"].apply(...)\<close>\<close>

definition add_SeasonWeight :: "dataframe \<Rightarrow> py_error + dataframe" where
  "add_SeasonWeight data =
     (if ''Season'' \<notin> set (columns data) then Inl (KeyError ''Season'')
      else Inr (data\<lparr>
        columns := (if ''SeasonWeight'' \<in> set (columns data) then columns data
                    else columns data @ [''SeasonWeight'']),
        rows := map (\<lambda>r. r\<lparr>cells := (cells r)(''SeasonWeight'' := SeasonWeight (Season r))\<rparr>)
                  (rows data)\<rparr>))"

text \<open>\<^verbatim>\<open>np.average(a, weights=weights)\<close>\<close>

definition np_average :: "real list \<Rightarrow> real list \<Rightarrow> py_error + real" where
  "np_average a weights =
     (if sum_list weights = 0 then Inl ZeroDivisionError
      else Inr (sum_list (map2 (*) a weights) / sum_list weights))"

text \<open>\<^verbatim>\<open>np.average(x[c], weights=x["SeasonWeight"])\<close>: the column \<open>c\<close> is read first.\<close>

definition weighted :: "dataframe \<Rightarrow> string \<Rightarrow> py_error + real" where
  "weighted x c =
     (case column x c of
        Inl e \<Rightarrow> Inl e
      | Inr a \<Rightarrow>
          (case column x ''SeasonWeight'' of
             Inl e \<Rightarrow> Inl e
           | Inr w \<Rightarrow> np_average a w))"

text \<open>
  The entries of the \<^verbatim>\<open>pd.Series\<close> of lines 23-32, as (name, column averaged); Python
  evaluates them in this order.
\<close>

definition profile_columns :: "(string \<times> string) list" where
  "profile_columns =
     [(''Weighted_Pts'', ''Pts''), (''GF'', ''GF''), (''GA'', ''GA''), (''GD'', ''GD''),
      (''W'', ''W''), (''D'', ''D''), (''L'', ''L''), (''Pld'', ''Pld'')]"

fun series :: "dataframe \<Rightarrow> (string \<times> string) list \<Rightarrow> py_error + (string \<times> real) list" where
  "series x [] = Inr []"
| "series x ((name, c) # rest) =
     (case weighted x c of
        Inl e \<Rightarrow> Inl e
      | Inr v \<Rightarrow>
          (case series x rest of
             Inl e \<Rightarrow> Inl e
           | Inr vs \<Rightarrow> Inr ((name, v) # vs)))"

text \<open>\<^verbatim>\<open>groupby("Team")\<close>: one group per team name, in sorted order.\<close>

definition group_keys :: "dataframe \<Rightarrow> team list" where
  "group_keys data = sort (remdups (map Team (rows data)))"

definition group_of :: "dataframe \<Rightarrow> team \<Rightarrow> dataframe" where
  "group_of data t = data\<lparr>rows := filter (\<lambda>r. Team r = t) (rows data)\<rparr>"

definition profile_row :: "team \<Rightarrow> (string \<times> real) list \<Rightarrow> season_record" where
  "profile_row t vs =
     \<lparr>Team = t, Season = 0,
      cells = (\<lambda>c. case map_of vs c of Some v \<Rightarrow> v | None \<Rightarrow> 0)\<rparr>"

fun apply_groups :: "dataframe \<Rightarrow> team list \<Rightarrow> py_error + season_record list" where
  "apply_groups data [] = Inr []"
| "apply_groups data (t # ts) =
     (case series (group_of data t) profile_columns of
        Inl e \<Rightarrow> Inl e
      | Inr vs \<Rightarrow>
          (case apply_groups data ts of
             Inl e \<Rightarrow> Inl e
           | Inr rs \<Rightarrow> Inr (profile_row t vs # rs)))"

text \<open>
  Lines 23-32. For a table without rows pandas calls the function on no group and hands
  back the columns of the input under an index named \<open>Team\<close>, which
  \<^verbatim>\<open>reset_index()\<close> refuses to insert a second time; no theorem below depends on that case.
\<close>

definition team_performance_of :: "dataframe \<Rightarrow> py_error + dataframe" where
  "team_performance_of data =
     (if ''Team'' \<notin> set (columns data) then Inl (KeyError ''Team'')
      else if rows data = [] then Inl ValueError
      else (case apply_groups data (group_keys data) of
              Inl e \<Rightarrow> Inl e
            | Inr rs \<Rightarrow> Inr \<lparr>columns = ''Team'' # map fst profile_columns, rows = rs\<rparr>))"

text \<open>\<^verbatim>\<open>tp[new] = tp[a] / tp[b]\<close>\<close>

definition divide_columns :: "dataframe \<Rightarrow> string \<Rightarrow> string \<Rightarrow> string \<Rightarrow> py_error + dataframe" where
  "divide_columns tp new a b =
     (if a \<notin> set (columns tp) then Inl (KeyError a)
      else if b \<notin> set (columns tp) then Inl (KeyError b)
      else Inr (tp\<lparr>
        columns := (if new \<in> set (columns tp) then columns tp else columns tp @ [new]),
        rows := map (\<lambda>r. r\<lparr>cells := (cells r)(new := cells r a / cells r b)\<rparr>) (rows tp)\<rparr>))"

text \<open>
  Lines 35-40. In the other branch the source prints that \<open>GF\<close> or \<open>Pld\<close> is missing and
  goes on with the table as it is.
\<close>

definition add_strengths :: "dataframe \<Rightarrow> py_error + dataframe" where
  "add_strengths tp =
     (if ''GF'' \<in> set (columns tp) \<and> ''Pld'' \<in> set (columns tp) then
        (case divide_columns tp ''Attack_Strength'' ''GF'' ''Pld'' of
           Inl e \<Rightarrow> Inl e
         | Inr tp1 \<Rightarrow>
             (case divide_columns tp1 ''Defense_Strength'' ''GA'' ''Pld'' of
                Inl e \<Rightarrow> Inl e
              | Inr tp2 \<Rightarrow> divide_columns tp2 ''Win_Rate'' ''W'' ''Pld''))
      else Inr tp)"

text \<open>Line 43: selecting the three columns raises when one of them is absent.\<close>

definition team_stats_dict_of :: "dataframe \<Rightarrow> py_error + stats_dict" where
  "team_stats_dict_of tp =
     (if ''Team'' \<notin> set (columns tp) then Inl (KeyError ''Team'')
      else (case filter (\<lambda>c. c \<notin> set (columns tp))
                   [''Attack_Strength'', ''Defense_Strength'', ''Win_Rate''] of
              c # _ \<Rightarrow> Inl (KeyError c)
            | [] \<Rightarrow>
                Inr (map_of (map (\<lambda>r. (Team r,
                       \<lparr>Attack_Strength = cells r ''Attack_Strength'',
                        Defense_Strength = cells r ''Defense_Strength'',
                        Win_Rate = cells r ''Win_Rate''\<rparr>)) (rows tp)))))"

text \<open>
  Lines 21-43, run when the module is loaded: the three globals, or the exception that
  ends the script.
\<close>

definition load_profiles :: "dataframe \<Rightarrow> py_error + dataframe \<times> dataframe \<times> stats_dict" where
  "load_profiles table =
     (case add_SeasonWeight table of
        Inl e \<Rightarrow> Inl e
      | Inr data \<Rightarrow>
          (case team_performance_of data of
             Inl e \<Rightarrow> Inl e
           | Inr tp \<Rightarrow>
               (case add_strengths tp of
                  Inl e \<Rightarrow> Inl e
                | Inr team_performance \<Rightarrow>
                    (case team_stats_dict_of team_performance of
                       Inl e \<Rightarrow> Inl e
                     | Inr team_stats_dict \<Rightarrow> Inr (data, team_performance, team_stats_dict)))))"

text \<open>
  Lines 119-121 choose the teams of a simulation: those of \<^verbatim>\<open>team_performance\<close> that
  have a row in the latest season of \<^verbatim>\<open>data\<close>.
\<close>

definition historical_teams :: "dataframe \<Rightarrow> dataframe \<Rightarrow> team list" where
  "historical_teams data team_performance =
     (let valid_teams =
            (case rows data of
               [] \<Rightarrow> []
             | r # rs \<Rightarrow>
                 (let latest_season = fold max (map Season rs) (Season r)
                  in map Team (filter (\<lambda>x. Season x = latest_season) (rows data))))
      in filter (\<lambda>team. team \<in> set valid_teams) (map Team (rows team_performance)))"

text \<open>\<^verbatim>\<open>simulate_season(team_name)\<close> on the module's globals.\<close>

definition simulate_season ::
  "dataframe \<Rightarrow> dataframe \<Rightarrow> stats_dict \<Rightarrow> (nat \<Rightarrow> real) \<Rightarrow> nat \<Rightarrow> team
     \<Rightarrow> py_error + season_report \<times> nat" where
  "simulate_season data team_performance team_stats_dict u k team_name =
     simulate_season_teams team_stats_dict u k (historical_teams data team_performance) team_name"

section \<open>Example inputs\<close>

text \<open>The profiles of the scenario of two teams, and a random source that always yields \<open>1/2\<close>.\<close>

definition example_stats :: stats_dict where
  "example_stats =
     [''Arsenal'' \<mapsto> \<lparr>Attack_Strength = 1, Defense_Strength = 1/2, Win_Rate = 1/2\<rparr>,
      ''Chelsea'' \<mapsto> \<lparr>Attack_Strength = 1/2, Defense_Strength = 1/2, Win_Rate = 1/4\<rparr>]"

definition half :: "nat \<Rightarrow> real" where
  "half n = 1/2"

text \<open>Eleven teams without a profile.\<close>

definition eleven_teams :: "team list" where
  "eleven_teams = [''A'', ''B'', ''C'', ''D'', ''E'', ''F'', ''G'', ''H'', ''I'', ''J'', ''K'']"

text \<open>One season of one team, and a table with and without the column \<open>Pld\<close>.\<close>

definition arsenal_2020 :: season_record where
  "arsenal_2020 =
     \<lparr>Team = ''Arsenal'', Season = 2020,
      cells = (\<lambda>c. if c = ''Pts'' then 61 else if c = ''GF'' then 55 else if c = ''GA'' then 39
                 else if c = ''GD'' then 16 else if c = ''W'' then 18 else if c = ''D'' then 7
                 else if c = ''L'' then 13 else if c = ''Pld'' then 38 else 0)\<rparr>"

definition table_without_Pld :: dataframe where
  "table_without_Pld =
     \<lparr>columns = [''Season'', ''Team'', ''Pts'', ''GF'', ''GA'', ''GD'', ''W'', ''D'', ''L''],
      rows = [arsenal_2020]\<rparr>"

definition full_table :: dataframe where
  "full_table =
     \<lparr>columns = [''Season'', ''Team'', ''Pts'', ''GF'', ''GA'', ''GD'', ''W'', ''D'', ''L'', ''Pld''],
      rows = [arsenal_2020]\<rparr>"

section \<open>Recency weights\<close>

text \<open>
  C7: the weight of a season is \<open>1\<close> before the cutoff year 2015 and
  \<open>1 + (year - 2015) / 5\<close> from 2015 on, and it never decreases as the year grows.
\<close>

theorem SeasonWeight_spec:
  "(year < 2015 \<longrightarrow> SeasonWeight year = 1) \<and>
   (2015 \<le> year \<longrightarrow> SeasonWeight year = 1 + real_of_int (year - 2015) / 5) \<and>
   (\<forall>later. year \<le> later \<longrightarrow> SeasonWeight year \<le> SeasonWeight later)"
  by (auto simp: SeasonWeight_def)

theorem SeasonWeight_spec_witness:
  "SeasonWeight 2014 = 1 \<and> SeasonWeight 2020 = 2 \<and> SeasonWeight 2014 \<le> SeasonWeight 2020"
  using SeasonWeight_spec [of 2014] SeasonWeight_spec [of 2020] by simp

section \<open>The match outcome model\<close>

lemma np_choice_thirds:
  assumes "0 \<le> s" "s < 1"
  shows "np_random_choice [H, D, A] [1/3, 1/3, 1/3] s =
     Inr (if s < 1/3 then H else if s < 2/3 then D else A)"
  using assms by (simp add: np_random_choice_def cumsum_def searchsorted_right_def Let_def)







section \<open>Head to head\<close>







text \<open>
  C5: when either team has no profile, the head-to-head function reports that the teams are
  not in the dataset and stops: it computes no probabilities and takes no random sample.
\<close>

theorem head_to_head_unknown_team:
  assumes "team_stats_dict team1 = None \<or> team_stats_dict team2 = None"
  shows "simulate_head_to_head team_stats_dict u k team1 team2 = Inr (TeamsNotInDataset, k)"
  using assms by (auto simp: simulate_head_to_head_def split: option.splits)

theorem head_to_head_unknown_team_witness:
  "simulate_head_to_head example_stats half 0 ''Arsenal'' ''Everton'' = Inr (TeamsNotInDataset, 0)"
  using head_to_head_unknown_team [of example_stats "''Arsenal''" "''Everton''" half 0]
  by (simp add: example_stats_def)







section \<open>One simulated season\<close>

lemma update_fresh: "k \<notin> fst ` set al \<Longrightarrow> AList.update k v al = al @ [(k, v)]"
  by (induction al) auto

lemma foldl_update_fresh:
  "distinct ts \<Longrightarrow> set ts \<inter> fst ` set acc = {} \<Longrightarrow>
   foldl (\<lambda>d t. AList.update t v d) acc ts = acc @ map (\<lambda>t. (t, v)) ts"
proof (induction ts arbitrary: acc)
  case Nil
  then show ?case by simp
next
  case (Cons t ts)
  have fresh: "t \<notin> fst ` set acc" using Cons.prems by auto
  have "set ts \<inter> fst ` set (acc @ [(t, v)]) = {}" using Cons.prems by auto
  with Cons.IH [of "acc @ [(t, v)]"] Cons.prems fresh show ?case
    by (simp add: update_fresh)
qed

lemma zero_tally_distinct:
  "distinct teams \<Longrightarrow> zero_tally teams = map (\<lambda>team. (team, 0)) teams"
  using foldl_update_fresh [of teams "[]" 0] by (simp add: zero_tally_def)

lemma empty_rankings_distinct:
  "distinct teams \<Longrightarrow> empty_rankings teams = map (\<lambda>team. (team, [])) teams"
  using foldl_update_fresh [of teams "[]" "[]"] by (simp add: empty_rankings_def)

lemma sum_snd_update:
  fixes al :: "('k \<times> int) list"
  shows "map_of al k = Some p \<Longrightarrow>
    sum_list (map snd (AList.update k v al)) = sum_list (map snd al) - p + v"
  by (induction al) (auto split: if_splits)

lemma add_points_ok:
  assumes "team \<in> set (map fst st)"
  shows "\<exists>st'. add_points team n st = Inr st' \<and> map fst st' = map fst st \<and>
     (\<forall>t. map_of st' t = (if t = team then map_option (\<lambda>p. p + n) (map_of st t)
                           else map_of st t)) \<and>
     sum_list (map snd st') = sum_list (map snd st) + n"
proof -
  from assms obtain p where p: "map_of st team = Some p"
    by (metis map_of_eq_None_iff not_Some_eq set_map)
  have "add_points team n st = Inr (AList.update team (p + n) st)"
    by (simp add: add_points_def p)
  moreover have "map fst (AList.update team (p + n) st) = map fst st"
    using assms by (simp add: update_keys)
  moreover have "\<forall>t. map_of (AList.update team (p + n) st) t =
      (if t = team then map_option (\<lambda>p. p + n) (map_of st t) else map_of st t)"
    by (simp add: update_conv' p)
  moreover have "sum_list (map snd (AList.update team (p + n) st)) = sum_list (map snd st) + n"
    using sum_snd_update [OF p, of "p + n"] by simp
  ultimately show ?thesis by blast
qed

lemma award_ok:
  assumes "home_team \<in> set (map fst st)" and "away_team \<in> set (map fst st)"
    and "home_team \<noteq> away_team"
  shows "\<exists>st'. award home_team away_team r st = Inr st' \<and> map fst st' = map fst st \<and>
     (\<forall>t. map_of st' t =
        map_option (\<lambda>p. p + points_for t (home_team, away_team, r)) (map_of st t)) \<and>
     sum_list (map snd st') = sum_list (map snd st) + (if r = D then 2 else 3)"
proof (cases r)
  case H
  from add_points_ok [OF assms(1), of 3] obtain st' where
    "add_points home_team 3 st = Inr st'" "map fst st' = map fst st"
    "\<forall>t. map_of st' t = (if t = home_team then map_option (\<lambda>p. p + 3) (map_of st t)
                           else map_of st t)"
    "sum_list (map snd st') = sum_list (map snd st) + 3" by blast
  then show ?thesis using H
    by (intro exI [of _ st']) (auto simp: award_def points_for_def option.map_ident)
next
  case A
  from add_points_ok [OF assms(2), of 3] obtain st' where
    "add_points away_team 3 st = Inr st'" "map fst st' = map fst st"
    "\<forall>t. map_of st' t = (if t = away_team then map_option (\<lambda>p. p + 3) (map_of st t)
                           else map_of st t)"
    "sum_list (map snd st') = sum_list (map snd st) + 3" by blast
  then show ?thesis using A
    by (intro exI [of _ st']) (auto simp: award_def points_for_def option.map_ident)
next
  case D
  from add_points_ok [OF assms(1), of 1] obtain st1 where st1:
    "add_points home_team 1 st = Inr st1" "map fst st1 = map fst st"
    "\<forall>t. map_of st1 t = (if t = home_team then map_option (\<lambda>p. p + 1) (map_of st t)
                           else map_of st t)"
    "sum_list (map snd st1) = sum_list (map snd st) + 1" by blast
  have "away_team \<in> set (map fst st1)" using assms(2) st1(2) by simp
  from add_points_ok [OF this, of 1] obtain st2 where st2:
    "add_points away_team 1 st1 = Inr st2" "map fst st2 = map fst st1"
    "\<forall>t. map_of st2 t = (if t = away_team then map_option (\<lambda>p. p + 1) (map_of st1 t)
                           else map_of st1 t)"
    "sum_list (map snd st2) = sum_list (map snd st1) + 1" by blast
  show ?thesis using D st1 st2 assms(3)
    by (intro exI [of _ st2]) (auto simp: award_def points_for_def option.map_ident)
qed

lemma simulate_match_total:
  assumes "uniform_samples u"
  shows "\<exists>r k'. simulate_match team_stats_dict u k home_team away_team = Inr (r, k')"
proof -
  from assms have "0 \<le> u k" "u k < 1" by (simp_all add: uniform_samples_def)
  then show ?thesis
    by (auto simp: simulate_match_def np_choice_thirds split: option.splits)
qed

lemma play_fixture_ok:
  assumes inv: "season_inv teams s" and h: "home_team \<in> set teams" and a: "away_team \<in> set teams"
    and u: "uniform_samples u"
  shows "\<exists>s'. play_fixture team_stats_dict u home_team away_team s = Inr s' \<and>
     season_inv teams s' \<and>
     map fixture_of (played s') =
       map fixture_of (played s) @ (if home_team \<noteq> away_team then [(home_team, away_team)] else [])"
proof (cases "home_team = away_team")
  case True
  then show ?thesis using inv by (simp add: play_fixture_def)
next
  case False
  from simulate_match_total [OF u] obtain r k' where
    sm: "simulate_match team_stats_dict u (rng_pos s) home_team away_team = Inr (r, k')" by blast
  from inv have keys: "map fst (standings s) = teams" by (simp add: season_inv_def)
  from inv have pts: "\<forall>team \<in> set teams.
      map_of (standings s) team = Some (sum_list (map (points_for team) (played s)))"
    by (simp add: season_inv_def)
  from inv have tot: "sum_list (map snd (standings s)) =
      3 * int (length (filter decisive (played s))) + 2 * int (length (filter drawn (played s)))"
    by (simp add: season_inv_def)
  have "home_team \<in> set (map fst (standings s))" "away_team \<in> set (map fst (standings s))"
    using h a keys by simp_all
  from award_ok [OF this False, of r] obtain st' where st':
    "award home_team away_team r (standings s) = Inr st'" "map fst st' = map fst (standings s)"
    "\<forall>t. map_of st' t =
       map_option (\<lambda>p. p + points_for t (home_team, away_team, r)) (map_of (standings s) t)"
    "sum_list (map snd st') = sum_list (map snd (standings s)) + (if r = D then 2 else 3)"
    by blast
  define s' where "s' = \<lparr>standings = st', rng_pos = k',
      played = played s @ [(home_team, away_team, r)]\<rparr>"
  have run: "play_fixture team_stats_dict u home_team away_team s = Inr s'"
    using False sm st'(1) by (simp add: play_fixture_def s'_def)
  have "season_inv teams s'"
    unfolding season_inv_def
  proof (intro conjI ballI)
    show "map fst (standings s') = teams" using st'(2) keys by (simp add: s'_def)
  next
    fix team assume "team \<in> set teams"
    with pts st'(3) show "map_of (standings s') team =
        Some (sum_list (map (points_for team) (played s')))"
      by (simp add: s'_def)
  next
    show "sum_list (map snd (standings s')) =
        3 * int (length (filter decisive (played s'))) + 2 * int (length (filter drawn (played s')))"
      using st'(4) tot by (cases r) (simp_all add: s'_def decisive_def drawn_def)
  qed
  moreover have "map fixture_of (played s') = map fixture_of (played s) @ [(home_team, away_team)]"
    by (simp add: s'_def fixture_of_def)
  ultimately show ?thesis using run False by auto
qed

lemma away_loop_ok:
  assumes "season_inv teams s" and "home_team \<in> set teams" and "set aways \<subseteq> set teams"
    and "uniform_samples u"
  shows "\<exists>s'. away_loop team_stats_dict u home_team aways s = Inr s' \<and>
     season_inv teams s' \<and>
     map fixture_of (played s') =
       map fixture_of (played s) @ map (Pair home_team) (filter (\<lambda>a. home_team \<noteq> a) aways)"
  using assms
proof (induction aways arbitrary: s)
  case Nil
  then show ?case by simp
next
  case (Cons a aways)
  from Cons.prems have "a \<in> set teams" by simp
  from play_fixture_ok [OF Cons.prems(1,2) this Cons.prems(4), of team_stats_dict]
  obtain s1 where s1: "play_fixture team_stats_dict u home_team a s = Inr s1"
    "season_inv teams s1"
    "map fixture_of (played s1) =
       map fixture_of (played s) @ (if home_team \<noteq> a then [(home_team, a)] else [])"
    by blast
  from Cons.prems have "set aways \<subseteq> set teams" by simp
  from Cons.IH [OF s1(2) Cons.prems(2) this Cons.prems(4)]
  obtain s' where "away_loop team_stats_dict u home_team aways s1 = Inr s'"
    "season_inv teams s'"
    "map fixture_of (played s') =
       map fixture_of (played s1) @ map (Pair home_team) (filter (\<lambda>a. home_team \<noteq> a) aways)"
    by blast
  with s1 show ?case by (intro exI [of _ s']) simp
qed

lemma home_loop_ok:
  assumes "season_inv teams s" and "set homes \<subseteq> set teams" and "uniform_samples u"
  shows "\<exists>s'. home_loop team_stats_dict u teams homes s = Inr s' \<and>
     season_inv teams s' \<and>
     map fixture_of (played s') = map fixture_of (played s) @ fixtures homes teams"
  using assms
proof (induction homes arbitrary: s)
  case Nil
  then show ?case by (simp add: fixtures_def)
next
  case (Cons h homes)
  from Cons.prems have "h \<in> set teams" by simp
  from away_loop_ok [OF Cons.prems(1) this subset_refl Cons.prems(3), of team_stats_dict]
  obtain s1 where s1: "away_loop team_stats_dict u h teams s = Inr s1"
    "season_inv teams s1"
    "map fixture_of (played s1) =
       map fixture_of (played s) @ map (Pair h) (filter (\<lambda>a. h \<noteq> a) teams)"
    by blast
  from Cons.prems have "set homes \<subseteq> set teams" by simp
  from Cons.IH [OF s1(2) this Cons.prems(3)]
  obtain s' where "home_loop team_stats_dict u teams homes s1 = Inr s'"
    "season_inv teams s'"
    "map fixture_of (played s') = map fixture_of (played s1) @ fixtures homes teams"
    by blast
  with s1 show ?case by (intro exI [of _ s']) (simp add: fixtures_def)
qed

lemma set_fixtures:
  "set (fixtures homes teams) = {(h, a). h \<in> set homes \<and> a \<in> set teams \<and> h \<noteq> a}"
  by (auto simp: fixtures_def)

lemma distinct_fixtures:
  "distinct homes \<Longrightarrow> distinct teams \<Longrightarrow> distinct (fixtures homes teams)"
proof (induction homes)
  case Nil
  then show ?case by (simp add: fixtures_def)
next
  case (Cons h homes)
  have "distinct (map (Pair h) (filter (\<lambda>a. h \<noteq> a) teams))"
    using Cons.prems(2) by (simp add: distinct_map inj_on_def)
  moreover have "distinct (fixtures homes teams)" using Cons by simp
  moreover have "set (map (Pair h) (filter (\<lambda>a. h \<noteq> a) teams)) \<inter> set (fixtures homes teams) = {}"
    using Cons.prems(1) by (auto simp: set_fixtures)
  ultimately show ?case by (simp add: fixtures_def)
qed

lemma play_season_ok:
  assumes "distinct teams" and "uniform_samples u"
  shows "\<exists>s. play_season team_stats_dict u k teams = Inr s \<and> season_inv teams s \<and>
     map fixture_of (played s) = fixtures teams teams"
proof -
  define s0 where "s0 = \<lparr>standings = zero_tally teams, rng_pos = k, played = []\<rparr>"
  have "season_inv teams s0"
    using assms(1) by (simp add: season_inv_def s0_def zero_tally_distinct comp_def map_of_map_restrict restrict_map_def)
  from home_loop_ok [OF this subset_refl assms(2), of team_stats_dict]
  show ?thesis by (simp add: play_season_def s0_def)
qed

lemma uniform_samples_half: "uniform_samples half"
  by (simp add: uniform_samples_def half_def)

text \<open>
  C3: for teams without repetition, a simulated season starts from a tally of zeros, plays
  every ordered pair of distinct teams exactly once and ends with one tally entry per team;
  every team's points are 3 for each match it won, 1 for each it drew and 0 for each it
  lost, and the points of all teams sum to 3 times the decided matches plus 2 times the
  drawn ones.
\<close>

theorem play_season_points:
  assumes "distinct teams" and "uniform_samples u"
  shows "zero_tally teams = map (\<lambda>team. (team, 0)) teams \<and>
     (\<exists>s. play_season team_stats_dict u k teams = Inr s \<and>
        map fst (standings s) = teams \<and>
        distinct (map fixture_of (played s)) \<and>
        set (map fixture_of (played s)) =
          {(home_team, away_team). home_team \<in> set teams \<and>
             away_team \<in> set teams \<and> home_team \<noteq> away_team} \<and>
        (\<forall>team \<in> set teams.
           map_of (standings s) team = Some (sum_list (map (points_for team) (played s)))) \<and>
        sum_list (map snd (standings s)) =
          3 * int (length (filter decisive (played s)))
          + 2 * int (length (filter drawn (played s))))"
proof -
  from play_season_ok [OF assms, of team_stats_dict k] obtain s where
    s: "play_season team_stats_dict u k teams = Inr s"
      "season_inv teams s"
      "map fixture_of (played s) = fixtures teams teams" by blast
  have "distinct (map fixture_of (played s))"
    using s(3) distinct_fixtures [OF assms(1) assms(1)] by simp
  moreover have "set (map fixture_of (played s)) =
      {(home_team, away_team). home_team \<in> set teams \<and>
         away_team \<in> set teams \<and> home_team \<noteq> away_team}"
    unfolding s(3) by (rule set_fixtures)
  ultimately show ?thesis
    using s(1,2) zero_tally_distinct [OF assms(1)] unfolding season_inv_def by blast
qed

theorem play_season_points_witness:
  "play_season example_stats half 0 [''Arsenal'', ''Chelsea'', ''Everton''] =
     Inr \<lparr>standings = [(''Arsenal'', 8), (''Chelsea'', 2), (''Everton'', 4)], rng_pos = 4,
          played = [(''Arsenal'', ''Chelsea'', H), (''Arsenal'', ''Everton'', D),
                    (''Chelsea'', ''Arsenal'', A), (''Chelsea'', ''Everton'', D),
                    (''Everton'', ''Arsenal'', D), (''Everton'', ''Chelsea'', D)]\<rparr> \<and>
   (8::int) + 2 + 4 = 3 * 2 + 2 * 4"
  using play_season_points [of "[''Arsenal'', ''Chelsea'', ''Everton'']" half example_stats 0]
  by (simp add: uniform_samples_half play_season_def zero_tally_def play_fixture_def
      simulate_match_def example_stats_def half_def home_advantage_def award_def add_points_def
      np_random_choice_def cumsum_def searchsorted_right_def)

section \<open>Rankings over all seasons\<close>

lemma distinct_keys_sort_key:
  "distinct (map fst xs) \<Longrightarrow> distinct (map fst (sort_key f xs))"
  by (simp add: distinct_map)

lemma sorted_teams_keys:
  assumes "distinct (map fst st)"
  shows "distinct (map fst (sorted_teams st))"
    and "set (map fst (sorted_teams st)) = set (map fst st)"
    and "length (sorted_teams st) = length st"
  using assms by (simp_all add: sorted_teams_def distinct_map)

lemma append_rank_ok:
  assumes "team \<in> set (map fst fr)"
  shows "\<exists>ranks. map_of fr team = Some ranks \<and>
     append_rank team position fr = Inr (AList.update team (ranks @ [position]) fr)"
proof -
  from assms obtain ranks where "map_of fr team = Some ranks"
    by (metis map_of_eq_None_iff not_Some_eq set_map)
  then show ?thesis by (simp add: append_rank_def)
qed

lemma record_positions_ok:
  assumes "distinct (map fst xs)" and "set (map fst xs) \<subseteq> set (map fst fr)"
  shows "\<exists>fr'. record_positions (enumerate i xs) fr = Inr fr' \<and> map fst fr' = map fst fr \<and>
     (\<forall>t. t \<notin> set (map fst xs) \<longrightarrow> map_of fr' t = map_of fr t) \<and>
     (\<forall>t \<in> set (map fst xs). \<exists>j ranks. i \<le> j \<and> j < i + length xs \<and>
        map_of fr t = Some ranks \<and> map_of fr' t = Some (ranks @ [j + 1]))"
  using assms
proof (induction xs arbitrary: i fr)
  case Nil
  then show ?case by simp
next
  case (Cons x xs)
  obtain t0 p0 where x: "x = (t0, p0)" by (cases x)
  from Cons.prems x have t0: "t0 \<in> set (map fst fr)" and fresh: "t0 \<notin> set (map fst xs)"
    and dist: "distinct (map fst xs)" by auto
  from append_rank_ok [OF t0, of "i + 1"] obtain ranks0 where r0:
    "map_of fr t0 = Some ranks0"
    "append_rank t0 (i + 1) fr = Inr (AList.update t0 (ranks0 @ [i + 1]) fr)" by blast
  define fr1 where "fr1 = AList.update t0 (ranks0 @ [i + 1]) fr"
  have keys1: "map fst fr1 = map fst fr" using t0 by (simp add: fr1_def update_keys)
  have map1: "map_of fr1 = (map_of fr)(t0 \<mapsto> ranks0 @ [i + 1])"
    by (simp add: fr1_def update_conv')
  have "set (map fst xs) \<subseteq> set (map fst fr1)" using Cons.prems(2) keys1 by simp
  from Cons.IH [OF dist this, of "Suc i"] obtain fr' where fr':
    "record_positions (enumerate (Suc i) xs) fr1 = Inr fr'" "map fst fr' = map fst fr1"
    "\<forall>t. t \<notin> set (map fst xs) \<longrightarrow> map_of fr' t = map_of fr1 t"
    "\<forall>t \<in> set (map fst xs). \<exists>j ranks. Suc i \<le> j \<and> j < Suc i + length xs \<and>
        map_of fr1 t = Some ranks \<and> map_of fr' t = Some (ranks @ [j + 1])" by blast
  have run: "record_positions (enumerate i (x # xs)) fr = Inr fr'"
    using r0(2) fr'(1) by (simp add: x fr1_def)
  have "\<forall>t. t \<notin> set (map fst (x # xs)) \<longrightarrow> map_of fr' t = map_of fr t"
    using fr'(3) map1 by (simp add: x)
  moreover have "\<forall>t \<in> set (map fst (x # xs)). \<exists>j ranks. i \<le> j \<and> j < i + length (x # xs) \<and>
        map_of fr t = Some ranks \<and> map_of fr' t = Some (ranks @ [j + 1])"
  proof
    fix t assume "t \<in> set (map fst (x # xs))"
    then consider "t = t0" | "t \<in> set (map fst xs)" "t \<noteq> t0" using x by auto
    then show "\<exists>j ranks. i \<le> j \<and> j < i + length (x # xs) \<and>
        map_of fr t = Some ranks \<and> map_of fr' t = Some (ranks @ [j + 1])"
    proof cases
      case 1
      then have "map_of fr' t = Some (ranks0 @ [i + 1])" using fr'(3) fresh map1 by simp
      with 1 r0(1) show ?thesis by (intro exI [of _ i] exI [of _ ranks0]) simp
    next
      case 2
      with fr'(4) obtain j ranks where "Suc i \<le> j" "j < Suc i + length xs"
        "map_of fr1 t = Some ranks" "map_of fr' t = Some (ranks @ [j + 1])" by blast
      with 2 map1 show ?thesis by (intro exI [of _ j] exI [of _ ranks]) simp
    qed
  qed
  moreover have "map fst fr' = map fst fr" using fr'(2) keys1 by simp
  ultimately show ?case using run by (intro exI [of _ fr']) simp
qed

lemma season_step_ok:
  assumes "distinct teams" and "uniform_samples u" and "rank_inv teams j fr"
  shows "\<exists>s fr'. play_season team_stats_dict u k teams = Inr s \<and>
     record_positions (enumerate 0 (sorted_teams (standings s))) fr = Inr fr' \<and>
     rank_inv teams (Suc j) fr'"
proof -
  from play_season_ok [OF assms(1,2), of team_stats_dict k] obtain s where
    s: "play_season team_stats_dict u k teams = Inr s" "season_inv teams s" by blast
  then have keys: "map fst (standings s) = teams" by (simp add: season_inv_def)
  have frkeys: "map fst fr = teams" using assms(3) by (simp add: rank_inv_def)
  let ?xs = "sorted_teams (standings s)"
  have d: "distinct (map fst ?xs)" and st: "set (map fst ?xs) = set teams"
    and len: "length ?xs = length teams"
    using sorted_teams_keys [of "standings s"] keys assms(1)
    by (simp_all, metis length_map)
  have "set (map fst ?xs) \<subseteq> set (map fst fr)" using st frkeys by simp
  from record_positions_ok [OF d this, of 0] obtain fr' where fr':
    "record_positions (enumerate 0 ?xs) fr = Inr fr'" "map fst fr' = map fst fr"
    "\<forall>t \<in> set (map fst ?xs). \<exists>j ranks. 0 \<le> j \<and> j < 0 + length ?xs \<and>
        map_of fr t = Some ranks \<and> map_of fr' t = Some (ranks @ [j + 1])" by blast
  have "rank_inv teams (Suc j) fr'"
    unfolding rank_inv_def
  proof (intro conjI ballI)
    show "map fst fr' = teams" using fr'(2) frkeys by simp
  next
    fix team assume t: "team \<in> set teams"
    with st have "team \<in> set (map fst ?xs)" by simp
    with fr'(3) obtain i ranks where "i < 0 + length ?xs"
      "map_of fr team = Some ranks" "map_of fr' team = Some (ranks @ [i + 1])" by blast
    with len have i: "i < length teams"
      "map_of fr team = Some ranks" "map_of fr' team = Some (ranks @ [i + 1])" by simp_all
    from assms(3) t i(2) have "length ranks = j" "\<forall>r \<in> set ranks. 1 \<le> r \<and> r \<le> length teams"
      by (auto simp: rank_inv_def)
    with i show "\<exists>ranks. map_of fr' team = Some ranks \<and> length ranks = Suc j \<and>
        (\<forall>r \<in> set ranks. 1 \<le> r \<and> r \<le> length teams)" by auto
  qed
  with s(1) fr'(1) show ?thesis by blast
qed

lemma season_loop_ok:
  assumes "distinct teams" and "uniform_samples u" and "rank_inv teams j fr"
  shows "\<exists>fr' k'. season_loop n team_stats_dict u teams (fr, k) = Inr (fr', k') \<and>
     rank_inv teams (j + n) fr'"
  using assms(3)
proof (induction n arbitrary: fr k j)
  case 0
  then show ?case by simp
next
  case (Suc n)
  from season_step_ok [OF assms(1,2) Suc.prems, of team_stats_dict k] obtain s fr1 where
    step: "play_season team_stats_dict u k teams = Inr s"
      "record_positions (enumerate 0 (sorted_teams (standings s))) fr = Inr fr1"
      "rank_inv teams (Suc j) fr1" by blast
  from Suc.IH [OF step(3), of "rng_pos s"] obtain fr' k' where
    "season_loop n team_stats_dict u teams (fr1, rng_pos s) = Inr (fr', k')"
    "rank_inv teams (Suc j + n) fr'" by blast
  with step show ?case by (intro exI [of _ fr'] exI [of _ k']) simp
qed

lemma rank_inv_empty: "distinct teams \<Longrightarrow> rank_inv teams 0 (empty_rankings teams)"
  by (simp add: rank_inv_def empty_rankings_distinct comp_def map_of_map_restrict restrict_map_def)

lemma sum_list_bounds:
  fixes rs :: "nat list"
  assumes "\<forall>r \<in> set rs. a \<le> r \<and> r \<le> b"
  shows "a * length rs \<le> sum_list rs \<and> sum_list rs \<le> b * length rs"
  using assms by (induction rs) (auto simp: add_mono)

lemma np_mean_bounds:
  assumes "ranks \<noteq> []" and "\<forall>r \<in> set ranks. 1 \<le> r \<and> r \<le> n"
  shows "1 \<le> np_mean ranks \<and> np_mean ranks \<le> real n"
proof -
  from sum_list_bounds [OF assms(2)] have
    "length ranks \<le> sum_list ranks" "sum_list ranks \<le> n * length ranks" by simp_all
  then have "real (length ranks) \<le> real (sum_list ranks)"
    "real (sum_list ranks) \<le> real n * real (length ranks)"
    by (simp_all flip: of_nat_mult)
  moreover have "0 < real (length ranks)" using assms(1) by simp
  ultimately show ?thesis
    by (simp add: np_mean_def pos_le_divide_eq pos_divide_le_eq)
qed

lemma avg_positions_ok:
  assumes "distinct teams" and "rank_inv teams n fr" and "0 < n"
  shows "map fst (avg_positions fr) = teams"
    and "\<forall>row \<in> set (avg_positions fr). 1 \<le> snd row \<and> snd row \<le> real (length teams)"
proof -
  from assms(2) have keys: "map fst fr = teams" by (simp add: rank_inv_def)
  then show "map fst (avg_positions fr) = teams"
    by (simp add: avg_positions_def case_prod_unfold comp_def)
  show "\<forall>row \<in> set (avg_positions fr). 1 \<le> snd row \<and> snd row \<le> real (length teams)"
  proof
    fix row assume "row \<in> set (avg_positions fr)"
    then obtain team ranks where e: "(team, ranks) \<in> set fr" and row: "row = (team, np_mean ranks)"
      by (auto simp: avg_positions_def)
    from e keys assms(1) have "map_of fr team = Some ranks" by simp
    moreover from e keys have "team \<in> set teams" by force
    ultimately have "length ranks = n" "\<forall>r \<in> set ranks. 1 \<le> r \<and> r \<le> length teams"
      using assms(2) by (auto simp: rank_inv_def)
    with assms(3) np_mean_bounds [of ranks "length teams"] show
      "1 \<le> snd row \<and> snd row \<le> real (length teams)" by (auto simp: row)
  qed
qed

lemma top_10_ok:
  shows "sorted (map snd (top_10 df))"
    and "length (top_10 df) = min 10 (length df)"
    and "set (top_10 df) \<subseteq> set df"
    and "distinct (map fst df) \<Longrightarrow> distinct (map fst (top_10 df))"
    and "distinct df \<Longrightarrow>
      \<forall>row \<in> set (top_10 df). \<forall>other \<in> set df - set (top_10 df). snd row \<le> snd other"
proof -
  let ?xs = "sort_key snd df"
  have srt: "sorted (map snd ?xs)" by (rule sorted_sort_key)
  have "sorted (take 10 (map snd ?xs))" using srt by (rule sorted_wrt_take)
  then show "sorted (map snd (top_10 df))" by (simp add: top_10_def take_map)
  show "length (top_10 df) = min 10 (length df)" by (simp add: top_10_def min.commute)
  show sub: "set (top_10 df) \<subseteq> set df"
    using set_take_subset [of 10 ?xs] by (simp add: top_10_def)
  show "distinct (map fst (top_10 df))" if "distinct (map fst df)"
  proof -
    have "distinct (map fst ?xs)" using that by (simp add: distinct_map)
    then have "distinct (take 10 (map fst ?xs))" by (rule distinct_take)
    then show ?thesis by (simp add: top_10_def take_map)
  qed
  show "\<forall>row \<in> set (top_10 df). \<forall>other \<in> set df - set (top_10 df). snd row \<le> snd other"
    if "distinct df"
  proof (intro ballI)
    fix row other assume r: "row \<in> set (top_10 df)" and o: "other \<in> set df - set (top_10 df)"
    have "set ?xs = set (take 10 ?xs) \<union> set (drop 10 ?xs)"
      by (metis append_take_drop_id set_append)
    with o have od: "other \<in> set (drop 10 ?xs)" by (auto simp: top_10_def)
    have "sorted (map snd (take 10 ?xs @ drop 10 ?xs))" using srt by simp
    then have "\<forall>x \<in> set (take 10 ?xs). \<forall>y \<in> set (drop 10 ?xs). snd x \<le> snd y"
      unfolding map_append sorted_append by auto
    with r od show "snd row \<le> snd other" by (simp add: top_10_def)
  qed
qed

lemma simulate_season_teams_ok:
  assumes "distinct teams" and "uniform_samples u"
  shows "\<exists>fr k'.
     season_loop num_simulations team_stats_dict u teams (empty_rankings teams, k) = Inr (fr, k') \<and>
     rank_inv teams num_simulations fr \<and>
     simulate_season_teams team_stats_dict u k teams team_name =
       Inr (\<lparr>final_rankings_df = top_10 (avg_positions fr),
             not_in_top_10 = (team_name \<notin> set (map fst (top_10 (avg_positions fr))))\<rparr>, k')"
proof -
  from season_loop_ok [OF assms rank_inv_empty [OF assms(1)], of num_simulations team_stats_dict k]
  obtain fr k' where
    "season_loop num_simulations team_stats_dict u teams (empty_rankings teams, k) = Inr (fr, k')"
    "rank_inv teams num_simulations fr" by auto
  then show ?thesis
    by (intro exI [of _ fr] exI [of _ k']) (simp add: simulate_season_teams_def Let_def)
qed

lemma simulate_season_teams_table:
  assumes "distinct teams" and "uniform_samples u"
  shows "\<exists>final_rankings report k'.
     season_loop num_simulations team_stats_dict u teams (empty_rankings teams, k) =
       Inr (final_rankings, k') \<and>
     simulate_season_teams team_stats_dict u k teams team_name = Inr (report, k') \<and>
     map fst (avg_positions final_rankings) = teams \<and>
     (\<forall>row \<in> set (avg_positions final_rankings). 1 \<le> snd row \<and> snd row \<le> real (length teams)) \<and>
     final_rankings_df report = take 10 (sort_key snd (avg_positions final_rankings)) \<and>
     sorted (map snd (final_rankings_df report)) \<and>
     length (final_rankings_df report) = min 10 (length teams) \<and>
     distinct (map fst (final_rankings_df report)) \<and>
     set (final_rankings_df report) \<subseteq> set (avg_positions final_rankings) \<and>
     (\<forall>row \<in> set (final_rankings_df report).
        \<forall>other \<in> set (avg_positions final_rankings) - set (final_rankings_df report).
          snd row \<le> snd other)"
proof -
  from simulate_season_teams_ok [OF assms, of team_stats_dict k team_name] obtain fr k' where
    run: "season_loop num_simulations team_stats_dict u teams (empty_rankings teams, k) = Inr (fr, k')"
    and inv: "rank_inv teams num_simulations fr"
    and res: "simulate_season_teams team_stats_dict u k teams team_name =
       Inr (\<lparr>final_rankings_df = top_10 (avg_positions fr),
             not_in_top_10 = (team_name \<notin> set (map fst (top_10 (avg_positions fr))))\<rparr>, k')"
    by blast
  have pos: "0 < num_simulations" by (simp add: num_simulations_def)
  note avg = avg_positions_ok [OF assms(1) inv pos]
  have d: "distinct (map fst (avg_positions fr))" using avg(1) assms(1) by simp
  then have d': "distinct (avg_positions fr)" by (simp add: distinct_map)
  have len: "length (avg_positions fr) = length teams" using avg(1) by (metis length_map)
  note top = top_10_ok [of "avg_positions fr"]
  show ?thesis
    apply (rule exI [of _ fr])
    apply (rule exI [of _ "\<lparr>final_rankings_df = top_10 (avg_positions fr),
             not_in_top_10 = (team_name \<notin> set (map fst (top_10 (avg_positions fr))))\<rparr>"])
    apply (rule exI [of _ k'])
    using run res avg top(1,2,3) top(4) [OF d] top(5) [OF d'] len
    apply (simp add: top_10_def)
    done
qed

text \<open>
  C4, as the code has it: the averages of line 148 hold exactly one entry per team, each
  between \<open>1\<close> and the number of teams. The table of line 150 is these entries sorted
  ascending by average and cut to the first 10: it has \<open>min 10 n\<close> rows for \<open>n\<close> teams, no
  team twice, no row outside it has a smaller average, and it holds every team when there
  are at most 10.
\<close>

theorem simulate_season_table:
  assumes "distinct teams" and "uniform_samples u"
  shows "\<exists>final_rankings report k'.
     season_loop num_simulations team_stats_dict u teams (empty_rankings teams, k) =
       Inr (final_rankings, k') \<and>
     simulate_season_teams team_stats_dict u k teams team_name = Inr (report, k') \<and>
     map fst (avg_positions final_rankings) = teams \<and>
     (\<forall>row \<in> set (avg_positions final_rankings). 1 \<le> snd row \<and> snd row \<le> real (length teams)) \<and>
     final_rankings_df report = take 10 (sort_key snd (avg_positions final_rankings)) \<and>
     sorted (map snd (final_rankings_df report)) \<and>
     length (final_rankings_df report) = min 10 (length teams) \<and>
     distinct (map fst (final_rankings_df report)) \<and>
     set (final_rankings_df report) \<subseteq> set (avg_positions final_rankings) \<and>
     (\<forall>row \<in> set (final_rankings_df report).
        \<forall>other \<in> set (avg_positions final_rankings) - set (final_rankings_df report).
          snd row \<le> snd other) \<and>
     (length teams \<le> 10 \<longrightarrow> set (map fst (final_rankings_df report)) = set teams)"
proof -
  from simulate_season_teams_table [OF assms, of team_stats_dict k team_name]
  obtain fr report k' where t:
    "season_loop num_simulations team_stats_dict u teams (empty_rankings teams, k) = Inr (fr, k')"
    "simulate_season_teams team_stats_dict u k teams team_name = Inr (report, k')"
    "map fst (avg_positions fr) = teams"
    "\<forall>row \<in> set (avg_positions fr). 1 \<le> snd row \<and> snd row \<le> real (length teams)"
    "final_rankings_df report = take 10 (sort_key snd (avg_positions fr))"
    "sorted (map snd (final_rankings_df report))"
    "length (final_rankings_df report) = min 10 (length teams)"
    "distinct (map fst (final_rankings_df report))"
    "set (final_rankings_df report) \<subseteq> set (avg_positions fr)"
    "\<forall>row \<in> set (final_rankings_df report).
        \<forall>other \<in> set (avg_positions fr) - set (final_rankings_df report). snd row \<le> snd other"
    by blast
  have "set (map fst (final_rankings_df report)) = set teams" if small: "length teams \<le> 10"
  proof -
    have "length (avg_positions fr) = length teams" using t(3) by (metis length_map)
    then have "take 10 (sort_key snd (avg_positions fr)) = sort_key snd (avg_positions fr)"
      using small by simp
    then have "set (final_rankings_df report) = set (avg_positions fr)" using t(5) by simp
    then have "set (map fst (final_rankings_df report)) = set (map fst (avg_positions fr))"
      by simp
    then show ?thesis using t(3) by simp
  qed
  with t show ?thesis by blast
qed

theorem simulate_season_table_witness:
  "\<exists>report k'. simulate_season_teams example_stats half 0 [''Arsenal'', ''Chelsea''] ''Arsenal'' =
       Inr (report, k') \<and>
     length (final_rankings_df report) = 2 \<and>
     set (map fst (final_rankings_df report)) = {''Arsenal'', ''Chelsea''} \<and>
     sorted (map snd (final_rankings_df report))"
proof -
  have d: "distinct [''Arsenal'', ''Chelsea'']" by simp
  from simulate_season_table [OF d uniform_samples_half, of example_stats 0 "''Arsenal''"]
  obtain final_rankings report k' where
    a: "simulate_season_teams example_stats half 0 [''Arsenal'', ''Chelsea''] ''Arsenal'' =
          Inr (report, k')"
    and b: "length (final_rankings_df report) = min 10 (length [''Arsenal'', ''Chelsea''])"
    and c: "sorted (map snd (final_rankings_df report))"
    and e: "length [''Arsenal'', ''Chelsea''] \<le> 10 \<longrightarrow>
          set (map fst (final_rankings_df report)) = set [''Arsenal'', ''Chelsea'']"
    by (elim exE conjE) (rule that)
  from b have "length (final_rankings_df report) = 2" by simp
  moreover from e have "set (map fst (final_rankings_df report)) = {''Arsenal'', ''Chelsea''}"
    by simp
  ultimately show ?thesis using a c by (intro exI [of _ report] exI [of _ k'] conjI)
qed

text \<open>
  With eleven teams the table of line 150 has ten rows, so one team has no entry in it.
\<close>

theorem simulate_season_keeps_ten:
  "\<exists>report k'. simulate_season_teams Map.empty half 0 eleven_teams ''A'' = Inr (report, k') \<and>
     length eleven_teams = 11 \<and> distinct eleven_teams \<and>
     length (final_rankings_df report) = 10 \<and>
     \<not> set eleven_teams \<subseteq> set (map fst (final_rankings_df report))"
proof -
  have d: "distinct eleven_teams" and l: "length eleven_teams = 11"
    by (simp_all add: eleven_teams_def)
  from simulate_season_teams_table [OF d uniform_samples_half, of Map.empty 0 "''A''"]
  obtain report k' where t:
    "simulate_season_teams Map.empty half 0 eleven_teams ''A'' = Inr (report, k')"
    "length (final_rankings_df report) = min 10 (length eleven_teams)" by blast
  have len: "length (final_rankings_df report) = 10" using t(2) l by simp
  have "\<not> set eleven_teams \<subseteq> set (map fst (final_rankings_df report))"
  proof
    assume "set eleven_teams \<subseteq> set (map fst (final_rankings_df report))"
    then have "card (set eleven_teams) \<le> card (set (map fst (final_rankings_df report)))"
      by (intro card_mono) simp_all
    also have "\<dots> \<le> length (map fst (final_rankings_df report))" by (rule card_length)
    finally show False using len l distinct_card [OF d] by simp
  qed
  with t(1) d l len show ?thesis by blast
qed

section \<open>Unknown teams\<close>

text \<open>
  C9: when either team has no profile, the match is decided by one uniform sample: \<open>H\<close>
  below \<open>1/3\<close>, \<open>D\<close> from \<open>1/3\<close> to below \<open>2/3\<close>, \<open>A\<close> from \<open>2/3\<close> on, three intervals of
  the same length, and no error is raised. A season and the whole simulation over any
  teams without repetition, known or not, end with a result and never with an error.
\<close>

theorem unknown_team_fallback:
  assumes "team_stats_dict home_team = None \<or> team_stats_dict away_team = None"
    and "uniform_samples u" and "distinct teams"
  shows "(\<exists>r. simulate_match team_stats_dict u k home_team away_team = Inr (r, Suc k) \<and>
        np_random_choice [H, D, A] [1/3, 1/3, 1/3] (u k) = Inr r \<and>
        (r = H \<longleftrightarrow> u k < 1/3) \<and>
        (r = D \<longleftrightarrow> 1/3 \<le> u k \<and> u k < 2/3) \<and>
        (r = A \<longleftrightarrow> 2/3 \<le> u k)) \<and>
     (\<exists>s. play_season team_stats_dict u k teams = Inr s) \<and>
     (\<exists>report k'. simulate_season_teams team_stats_dict u k teams team_name = Inr (report, k'))"
proof -
  from assms(2) have s: "0 \<le> u k" "u k < 1" by (simp_all add: uniform_samples_def)
  have c: "np_random_choice [H, D, A] [1/3, 1/3, 1/3] (u k) =
      Inr (if u k < 1/3 then H else if u k < 2/3 then D else A)"
    using s by (rule np_choice_thirds)
  have "simulate_match team_stats_dict u k home_team away_team =
      Inr (if u k < 1/3 then H else if u k < 2/3 then D else A, Suc k)"
    using assms(1) c by (auto simp: simulate_match_def split: option.splits)
  then have first: "\<exists>r. simulate_match team_stats_dict u k home_team away_team = Inr (r, Suc k) \<and>
        np_random_choice [H, D, A] [1/3, 1/3, 1/3] (u k) = Inr r \<and>
        (r = H \<longleftrightarrow> u k < 1/3) \<and>
        (r = D \<longleftrightarrow> 1/3 \<le> u k \<and> u k < 2/3) \<and>
        (r = A \<longleftrightarrow> 2/3 \<le> u k)"
    using c s by auto
  from play_season_ok [OF assms(3,2), of team_stats_dict k]
  have second: "\<exists>s. play_season team_stats_dict u k teams = Inr s" by blast
  from simulate_season_teams_ok [OF assms(3,2), of team_stats_dict k team_name]
  have third: "\<exists>report k'. simulate_season_teams team_stats_dict u k teams team_name = Inr (report, k')"
    by blast
  from first second third show ?thesis by blast
qed

theorem unknown_team_fallback_witness:
  "simulate_match example_stats half 0 ''Arsenal'' ''Everton'' = Inr (D, 1) \<and>
   (\<exists>s. play_season example_stats half 0 [''Arsenal'', ''Everton''] = Inr s) \<and>
   (\<exists>report k'. simulate_season_teams example_stats half 0 [''Arsenal'', ''Everton''] ''Arsenal'' =
       Inr (report, k'))"
proof -
  have n: "example_stats ''Arsenal'' = None \<or> example_stats ''Everton'' = None"
    by (simp add: example_stats_def)
  have d: "distinct [''Arsenal'', ''Everton'']" by simp
  note t = unknown_team_fallback [OF n uniform_samples_half d, of 0 "''Arsenal''"]
  from t obtain r where r: "simulate_match example_stats half 0 ''Arsenal'' ''Everton'' = Inr (r, Suc 0)"
    "(r = D) = (1/3 \<le> half 0 \<and> half 0 < 2/3)"
    by (elim exE conjE) (rule that)
  from r(2) have "r = D" by (simp add: half_def)
  with r(1) have "simulate_match example_stats half 0 ''Arsenal'' ''Everton'' = Inr (D, 1)"
    by simp
  moreover from t have "\<exists>s. play_season example_stats half 0 [''Arsenal'', ''Everton''] = Inr s"
    by (elim conjE)
  moreover from t have "\<exists>report k'.
      simulate_season_teams example_stats half 0 [''Arsenal'', ''Everton''] ''Arsenal'' =
        Inr (report, k')"
    by (elim conjE)
  ultimately show ?thesis by (intro conjI)
qed

section \<open>Building the profiles\<close>

text \<open>The table \<^verbatim>\<open>team_performance\<close> always has the columns that line 35 looks for, so the branch of line 39 that reports a missing column is never taken.\<close>

lemma team_performance_columns:
  assumes "team_performance_of data = Inr tp"
  shows "''GF'' \<in> set (columns tp) \<and> ''Pld'' \<in> set (columns tp)"
  using assms
  by (auto simp: team_performance_of_def profile_columns_def split: if_splits sum.splits)

text \<open>A table with every column loads, and the profile is the ratio of the weighted averages.\<close>

lemma load_profiles_full_table:
  "\<exists>data tp d. load_profiles full_table = Inr (data, tp, d) \<and>
     d ''Arsenal'' = Some \<lparr>Attack_Strength = 55/38, Defense_Strength = 39/38, Win_Rate = 18/38\<rparr> \<and>
     d ''Chelsea'' = None"
  by (simp add: load_profiles_def full_table_def add_SeasonWeight_def
      team_performance_of_def group_keys_def group_of_def profile_columns_def weighted_def
      column_def np_average_def SeasonWeight_def arsenal_2020_def add_strengths_def
      divide_columns_def team_stats_dict_of_def profile_row_def)

text \<open>A column that lines 23-32 average is read there; when it is absent, loading ends in an exception and yields no dictionary, empty or not.\<close>

lemma series_columns:
  assumes "series x cols = Inr vs" and "(name, c) \<in> set cols"
  shows "c \<in> set (columns x)"
  using assms
proof (induction cols arbitrary: vs)
  case Nil
  then show ?case by simp
next
  case (Cons p cols)
  obtain n0 c0 where p: "p = (n0, c0)" by (cases p)
  from Cons.prems(1) obtain v vs' where w: "weighted x c0 = Inr v" and r: "series x cols = Inr vs'"
    by (auto simp: p split: sum.splits)
  from w have "c0 \<in> set (columns x)"
    by (auto simp: weighted_def column_def split: if_splits sum.splits)
  with Cons.IH [OF r] Cons.prems(2) p show ?case by auto
qed

lemma apply_groups_columns:
  assumes "apply_groups data ts = Inr rs" and "ts \<noteq> []" and "(name, c) \<in> set profile_columns"
  shows "c \<in> set (columns data)"
proof -
  from assms(2) obtain t ts' where ts: "ts = t # ts'" by (cases ts) auto
  with assms(1) obtain vs where "series (group_of data t) profile_columns = Inr vs"
    by (auto split: sum.splits)
  from series_columns [OF this assms(3)] show ?thesis by (simp add: group_of_def)
qed

lemma group_keys_nonempty: "rows data \<noteq> [] \<Longrightarrow> group_keys data \<noteq> []"
proof -
  assume "rows data \<noteq> []"
  then have "set (group_keys data) \<noteq> {}" by (simp add: group_keys_def)
  then show ?thesis by auto
qed

lemma load_profiles_missing_column:
  assumes "(name, c) \<in> set profile_columns" and "c \<notin> set (columns table)"
  shows "load_profiles table \<noteq> Inr x"
proof
  assume ok: "load_profiles table = Inr x"
  then obtain data tp where d: "add_SeasonWeight table = Inr data"
    and t: "team_performance_of data = Inr tp"
    by (auto simp: load_profiles_def split: sum.splits)
  from assms(1) have ne: "c \<noteq> ''SeasonWeight''" by (auto simp: profile_columns_def)
  from d have "set (columns data) \<subseteq> insert ''SeasonWeight'' (set (columns table))"
    by (auto simp: add_SeasonWeight_def split: if_splits)
  with assms(2) ne have missing: "c \<notin> set (columns data)" by auto
  from t obtain rs where "apply_groups data (group_keys data) = Inr rs" "rows data \<noteq> []"
    by (auto simp: team_performance_of_def split: if_splits sum.splits)
  from apply_groups_columns [OF this(1) group_keys_nonempty [OF this(2)] assms(1)] missing
  show False by simp
qed

text \<open>
  C6: on a table without the column \<open>Pld\<close>, loading the profiles raises
  \<^verbatim>\<open>KeyError: 'Pld'\<close> in the averaging of line 31. No dictionary of profiles results,
  where the claim expects a reported data error and an empty dictionary.
\<close>

theorem load_profiles_without_Pld:
  "load_profiles table_without_Pld = Inl (KeyError ''Pld'')"
  by (simp add: load_profiles_def table_without_Pld_def add_SeasonWeight_def
      team_performance_of_def group_keys_def group_of_def profile_columns_def weighted_def
      column_def np_average_def SeasonWeight_def arsenal_2020_def)

text \<open>The teams that \<^verbatim>\<open>simulate_season\<close> picks have no repetition, so the theorems on seasons apply to it.\<close>

lemma apply_groups_teams: "apply_groups data ts = Inr rs \<Longrightarrow> map Team rs = ts"
  by (induction ts arbitrary: rs) (auto simp: profile_row_def split: sum.splits)

lemma team_performance_teams:
  assumes "team_performance_of data = Inr tp"
  shows "map Team (rows tp) = group_keys data"
  using assms
  by (auto simp: team_performance_of_def apply_groups_teams split: if_splits sum.splits)

lemma divide_columns_teams:
  "divide_columns tp new a b = Inr tp' \<Longrightarrow> map Team (rows tp') = map Team (rows tp)"
  by (auto simp: divide_columns_def comp_def split: if_splits)

lemma add_strengths_teams:
  "add_strengths tp = Inr tp' \<Longrightarrow> map Team (rows tp') = map Team (rows tp)"
  by (auto simp: add_strengths_def split: if_splits sum.splits dest!: divide_columns_teams)

lemma distinct_historical_teams:
  "distinct (map Team (rows team_performance)) \<Longrightarrow>
   distinct (historical_teams data team_performance)"
  by (simp add: historical_teams_def Let_def)

lemma load_profiles_teams:
  assumes "load_profiles table = Inr (data, team_performance, team_stats_dict)"
  shows "distinct (historical_teams data team_performance)"
proof -
  from assms obtain tp where t: "team_performance_of data = Inr tp"
    and a: "add_strengths tp = Inr team_performance"
    by (auto simp: load_profiles_def split: sum.splits)
  have "map Team (rows team_performance) = group_keys data"
    using add_strengths_teams [OF a] team_performance_teams [OF t] by simp
  then have "distinct (map Team (rows team_performance))" by (simp add: group_keys_def)
  then show ?thesis by (rule distinct_historical_teams)
qed

lemma simulate_season_ok:
  assumes "load_profiles table = Inr (data, team_performance, team_stats_dict)"
    and "uniform_samples u"
  shows "\<exists>report k'.
     simulate_season data team_performance team_stats_dict u k team_name = Inr (report, k') \<and>
     length (final_rankings_df report) =
       min 10 (length (historical_teams data team_performance)) \<and>
     sorted (map snd (final_rankings_df report))"
proof -
  from simulate_season_teams_table [OF load_profiles_teams [OF assms(1)] assms(2),
      of team_stats_dict k team_name]
  show ?thesis unfolding simulate_season_def by blast
qed

end
